theory Spec2Isabelle
  imports Complex_Main "HOL-Library.AList"
begin

section \<open>JavaScript numbers\<close>

text \<open>
  The worker computes with JavaScript numbers. Finite numbers are modelled as exact reals
  (no rounding, no overflow, a single zero); the three non-finite values \<open>Infinity\<close>,
  \<open>-Infinity\<close> and \<open>NaN\<close> are kept, with the results the language gives them, because
  the code divides without guarding the divisor.
\<close>

datatype jsnum = Num real | PosInf | NegInf | NaN

fun jneg :: "jsnum \<Rightarrow> jsnum" where
  "jneg (Num a) = Num (- a)"
| "jneg PosInf = NegInf"
| "jneg NegInf = PosInf"
| "jneg NaN = NaN"

fun jadd :: "jsnum \<Rightarrow> jsnum \<Rightarrow> jsnum" where
  "jadd (Num a) (Num b) = Num (a + b)"
| "jadd NaN _ = NaN"
| "jadd _ NaN = NaN"
| "jadd PosInf NegInf = NaN"
| "jadd NegInf PosInf = NaN"
| "jadd PosInf _ = PosInf"
| "jadd _ PosInf = PosInf"
| "jadd NegInf _ = NegInf"
| "jadd _ NegInf = NegInf"

definition jsub :: "jsnum \<Rightarrow> jsnum \<Rightarrow> jsnum" where
  "jsub x y = jadd x (jneg y)"

text \<open>The sign of a product or quotient with an infinite operand.\<close>

definition signedInf :: "bool \<Rightarrow> jsnum" where
  "signedInf positive = (if positive then PosInf else NegInf)"

fun jmul :: "jsnum \<Rightarrow> jsnum \<Rightarrow> jsnum" where
  "jmul (Num a) (Num b) = Num (a * b)"
| "jmul NaN _ = NaN"
| "jmul _ NaN = NaN"
| "jmul (Num a) PosInf = (if a = 0 then NaN else signedInf (0 < a))"
| "jmul (Num a) NegInf = (if a = 0 then NaN else signedInf (a < 0))"
| "jmul PosInf (Num b) = (if b = 0 then NaN else signedInf (0 < b))"
| "jmul NegInf (Num b) = (if b = 0 then NaN else signedInf (b < 0))"
| "jmul PosInf PosInf = PosInf"
| "jmul PosInf NegInf = NegInf"
| "jmul NegInf PosInf = NegInf"
| "jmul NegInf NegInf = PosInf"

fun jdiv :: "jsnum \<Rightarrow> jsnum \<Rightarrow> jsnum" where
  "jdiv (Num a) (Num b) =
     (if b = 0 then (if a = 0 then NaN else signedInf (0 < a)) else Num (a / b))"
| "jdiv NaN _ = NaN"
| "jdiv _ NaN = NaN"
| "jdiv (Num a) PosInf = Num 0"
| "jdiv (Num a) NegInf = Num 0"
| "jdiv PosInf (Num b) = signedInf (0 \<le> b)"
| "jdiv NegInf (Num b) = signedInf (b < 0)"
| "jdiv PosInf PosInf = NaN"
| "jdiv PosInf NegInf = NaN"
| "jdiv NegInf PosInf = NaN"
| "jdiv NegInf NegInf = NaN"

text \<open>\<open>Number.isInteger\<close>: finite and without a fractional part.\<close>

fun isInteger :: "jsnum \<Rightarrow> bool" where
  "isInteger (Num a) = (of_int \<lfloor>a\<rfloor> = a)"
| "isInteger PosInf = False"
| "isInteger NegInf = False"
| "isInteger NaN = False"


section \<open>Timestamps\<close>

text \<open>
  A point's timestamp is the integer number of milliseconds \<open>new Date(s).getTime()\<close> reads
  from its ISO string (the strings are taken to be valid dates). \<open>Math.min\<close> and
  \<open>Math.max\<close> of no argument are \<open>Infinity\<close> and \<open>-Infinity\<close>, so the bounds of the common
  window range over the integers extended by both.
\<close>

datatype etime = NegInfinity | At int | Infinity

fun ele :: "etime \<Rightarrow> etime \<Rightarrow> bool" where
  "ele NegInfinity _ = True"
| "ele (At a) NegInfinity = False"
| "ele (At a) (At b) = (a \<le> b)"
| "ele (At a) Infinity = True"
| "ele Infinity NegInfinity = False"
| "ele Infinity (At b) = False"
| "ele Infinity Infinity = True"

definition emin :: "etime \<Rightarrow> etime \<Rightarrow> etime" where
  "emin a b = (if ele a b then a else b)"

definition emax :: "etime \<Rightarrow> etime \<Rightarrow> etime" where
  "emax a b = (if ele a b then b else a)"

definition Math_min :: "etime list \<Rightarrow> etime" where
  "Math_min ts = foldl emin Infinity ts"

definition Math_max :: "etime list \<Rightarrow> etime" where
  "Math_max ts = foldl emax NegInfinity ts"

text \<open>\<open>t += timeStep\<close>: adding a finite step leaves an infinite value as it is.\<close>

fun eplus :: "etime \<Rightarrow> int \<Rightarrow> etime" where
  "eplus (At a) d = At (a + d)"
| "eplus NegInfinity d = NegInfinity"
| "eplus Infinity d = Infinity"

text \<open>The time as a number, for the arithmetic of the interpolation.\<close>

fun toNum :: "etime \<Rightarrow> jsnum" where
  "toNum (At a) = Num (of_int a)"
| "toNum NegInfinity = NegInf"
| "toNum Infinity = PosInf"

section \<open>Data model\<close>

datatype Interval = I24h | I7d | I30d

text \<open>
  A point of a series: the value as \<open>parseFloat\<close> reads it, the timestamp in
  milliseconds.
\<close>

record point =
  "value" :: jsnum
  timestamp :: int

record AlchemyPriceData =
  symbol :: string
  currency :: string
  data :: "point list"

datatype error =
    CacheNotConfigured
  | ApiKeyNotConfigured
  | FetchFailed
  | NoPriceDataInRange string
  | NoPriceData string
  | TypeError
  | RangeError

text \<open>\<open>getTimeStep\<close>: the sampling step of the regular timeline, in milliseconds.\<close>

fun getTimeStep :: "Interval \<Rightarrow> int" where
  "getTimeStep I24h = 5 * 60 * 1000"
| "getTimeStep I7d = 60 * 60 * 1000"
| "getTimeStep I30d = 24 * 60 * 60 * 1000"

section \<open>Aligning and weighting the series (\<open>getWeightedPrices\<close>)\<close>

text \<open>The common time range: the latest first timestamp and the earliest last one.\<close>

definition allTimestamps :: "AlchemyPriceData list \<Rightarrow> int list list" where
  "allTimestamps priceDataList = map (\<lambda>d. map timestamp (data d)) priceDataList"

definition minTimestamp :: "AlchemyPriceData list \<Rightarrow> etime" where
  "minTimestamp priceDataList =
     Math_max (map (\<lambda>timestamps. Math_min (map At timestamps)) (allTimestamps priceDataList))"

definition maxTimestamp :: "AlchemyPriceData list \<Rightarrow> etime" where
  "maxTimestamp priceDataList =
     Math_min (map (\<lambda>timestamps. Math_max (map At timestamps)) (allTimestamps priceDataList))"

text \<open>
  The \<open>Map\<close> from timestamp to value of one series, as the list of its entries in
  insertion order: setting a key that is present replaces its value where it stands.
\<close>

definition priceMap :: "AlchemyPriceData \<Rightarrow> (int \<times> jsnum) list" where
  "priceMap d = foldl (\<lambda>m p. AList.update (timestamp p) (value p) m) [] (data d)"

text \<open>The entries inside the common range, sorted by timestamp.\<close>

definition availablePrices :: "(int \<times> jsnum) list \<Rightarrow> etime \<Rightarrow> etime \<Rightarrow> (int \<times> jsnum) list" where
  "availablePrices m lo hi =
     sort_key fst (filter (\<lambda>e. ele lo (At (fst e)) \<and> ele (At (fst e)) hi) m)"

text \<open>
  The search loop: the first pair of neighbours that encloses the timestamp, if there is
  one (the loop leaves \<open>lowerPoint\<close> and \<open>upperPoint\<close> at the first and the last entry
  otherwise).
\<close>

fun bracket :: "(int \<times> jsnum) list \<Rightarrow> etime \<Rightarrow> ((int \<times> jsnum) \<times> (int \<times> jsnum)) option" where
  "bracket (a # b # rest) t =
     (if ele (At (fst a)) t \<and> ele t (At (fst b)) then Some (a, b) else bracket (b # rest) t)"
| "bracket [a] t = None"
| "bracket [] t = None"

definition interpolate :: "(int \<times> jsnum) list \<Rightarrow> etime \<Rightarrow> jsnum" where
  "interpolate avail t =
     (let (lowerPoint, upperPoint) =
            (case bracket avail t of Some b \<Rightarrow> b | None \<Rightarrow> (hd avail, last avail));
          timeDiff = fst upperPoint - fst lowerPoint;
          valueDiff = jsub (snd upperPoint) (snd lowerPoint);
          ratio = (if timeDiff = 0 then Num 0
                   else jdiv (jsub (toNum t) (Num (of_int (fst lowerPoint)))) (Num (of_int timeDiff)))
      in jadd (snd lowerPoint) (jmul valueDiff ratio))"

text \<open>Reading past the end of an array gives \<open>undefined\<close>: \<open>NaN\<close> in arithmetic.\<close>

definition ratioAt :: "jsnum list \<Rightarrow> nat \<Rightarrow> jsnum" where
  "ratioAt ratioList i = (if i < length ratioList then ratioList ! i else NaN)"

definition symbolAt :: "string list \<Rightarrow> nat \<Rightarrow> string" where
  "symbolAt symbolList i = (if i < length symbolList then symbolList ! i else ''undefined'')"

text \<open>
  The \<open>reduce\<close> over the series at one timestamp: \<open>acc\<close> is the running sum,
  \<open>symbolIndex\<close> the index of the head of the remaining maps.
\<close>

fun weightedValue ::
  "string list \<Rightarrow> jsnum list \<Rightarrow> etime \<Rightarrow> etime \<Rightarrow> jsnum \<Rightarrow> etime \<Rightarrow> nat \<Rightarrow> jsnum
     \<Rightarrow> (int \<times> jsnum) list list \<Rightarrow> error + jsnum" where
  "weightedValue symbolList ratioList lo hi totalRatio t symbolIndex acc [] = Inr acc"
| "weightedValue symbolList ratioList lo hi totalRatio t symbolIndex acc (m # rest) =
     (let avail = availablePrices m lo hi in
      if avail = [] then Inl (NoPriceData (symbolAt symbolList symbolIndex))
      else weightedValue symbolList ratioList lo hi totalRatio t (Suc symbolIndex)
             (jadd acc (jdiv (jmul (interpolate avail t) (ratioAt ratioList symbolIndex)) totalRatio))
             rest)"

text \<open>
  The \<open>map\<close> over the generated timestamps; the first failing timestamp throws.
  \<open>toISOString\<close> throws a \<open>RangeError\<close> on a time that is not finite.
\<close>

fun weightedPoints ::
  "string list \<Rightarrow> jsnum list \<Rightarrow> etime \<Rightarrow> etime \<Rightarrow> (int \<times> jsnum) list list \<Rightarrow> etime list
     \<Rightarrow> error + point list" where
  "weightedPoints symbolList ratioList lo hi priceMaps [] = Inr []"
| "weightedPoints symbolList ratioList lo hi priceMaps (t # ts) =
     (let totalRatio = foldl jadd (Num 0) ratioList in
      case weightedValue symbolList ratioList lo hi totalRatio t 0 (Num 0) priceMaps of
        Inl e \<Rightarrow> Inl e
      | Inr v \<Rightarrow>
          (case t of
             At ms \<Rightarrow>
               (case weightedPoints symbolList ratioList lo hi priceMaps ts of
                  Inl e \<Rightarrow> Inl e
                | Inr ps \<Rightarrow> Inr (\<lparr>value = v, timestamp = ms\<rparr> # ps))
           | NegInfinity \<Rightarrow> Inl RangeError
           | Infinity \<Rightarrow> Inl RangeError))"

text \<open>
  The loop \<open>for (let t = minTimestamp; t <= maxTimestamp; t += timeStep)\<close>. It does not
  end when its bounds are infinite and in order, so it is a partial function: \<open>None\<close>
  is the loop that never returns.
\<close>

partial_function (option) timestampsFrom ::
  "etime \<Rightarrow> etime \<Rightarrow> int \<Rightarrow> etime list \<Rightarrow> etime list option" where
  "timestampsFrom t hi timeStep acc =
     (if ele t hi then timestampsFrom (eplus t timeStep) hi timeStep (acc @ [t]) else Some acc)"

declare timestampsFrom.simps [code]

text \<open>
  \<open>getWeightedPrices\<close> once the series are loaded: the weighted points, an error thrown on
  the way, or no return at all.
\<close>

definition weightedData ::
  "string list \<Rightarrow> jsnum list \<Rightarrow> Interval \<Rightarrow> AlchemyPriceData list
     \<Rightarrow> (error + point list) option" where
  "weightedData symbolList ratioList interval priceDataList =
     (let lo = minTimestamp priceDataList;
          hi = maxTimestamp priceDataList;
          priceMaps = map priceMap priceDataList
      in case timestampsFrom lo hi (getTimeStep interval) [] of
           None \<Rightarrow> None
         | Some timestamps \<Rightarrow>
             Some (weightedPoints symbolList ratioList lo hi priceMaps timestamps))"

section \<open>Weights (\<open>processRatios\<close>)\<close>

text \<open>
  \<open>Number\<close>, the conversion of a query string to a number, is the language's and a
  parameter here. The total is the \<open>reduce\<close> from \<open>0\<close>, left to right.
\<close>

definition processRatios :: "(string \<Rightarrow> jsnum) \<Rightarrow> string list \<Rightarrow> jsnum list" where
  "processRatios Number ratios =
     (let numbers = map Number ratios;
          allIntegers = list_all isInteger numbers
      in if allIntegers
         then (let total = foldl jadd (Num 0) numbers in map (\<lambda>num. jdiv num total) numbers)
         else numbers)"

section \<open>Cache, provider and the loading of a series\<close>

text \<open>
  The environment says whether the cache binding and the API key are configured. The
  contents of the cache are state, together with a trace of the cache reads, cache writes
  and provider requests made so far. The provider's answer to a request is a parameter:
  a response that is not ok, or the parsed body (a body without \<open>data\<close> is one with no
  point).
\<close>

record Env =
  PRICE_CACHE :: bool
  ALCHEMY_API_KEY :: string

datatype event = CacheGet string | CachePut string | Fetch string Interval

record world =
  kv :: "string \<rightharpoonup> AlchemyPriceData"
  trace :: "event list"

datatype reply = NotOk | Json AlchemyPriceData

type_synonym provider = "string \<Rightarrow> Interval \<Rightarrow> reply"

fun intervalString :: "Interval \<Rightarrow> string" where
  "intervalString I24h = ''24h''"
| "intervalString I7d = ''7d''"
| "intervalString I30d = ''30d''"

definition generateCacheKey :: "string \<Rightarrow> Interval \<Rightarrow> string" where
  "generateCacheKey symb iv = ''price:'' @ symb @ '':'' @ intervalString iv"

definition getCachedPrice ::
  "string \<Rightarrow> Interval \<Rightarrow> Env \<Rightarrow> world \<Rightarrow> (error + AlchemyPriceData option) \<times> world" where
  "getCachedPrice symb iv env w =
     (if \<not> PRICE_CACHE env then (Inl CacheNotConfigured, w)
      else (let cacheKey = generateCacheKey symb iv
            in (Inr (kv w cacheKey), w\<lparr>trace := trace w @ [CacheGet cacheKey]\<rparr>)))"

definition setCachedPrice ::
  "string \<Rightarrow> Interval \<Rightarrow> AlchemyPriceData \<Rightarrow> Env \<Rightarrow> world \<Rightarrow> (error + unit) \<times> world" where
  "setCachedPrice symb iv priceData env w =
     (if \<not> PRICE_CACHE env then (Inl CacheNotConfigured, w)
      else (let cacheKey = generateCacheKey symb iv
            in (Inr (), w\<lparr>kv := (kv w)(cacheKey \<mapsto> priceData),
                           trace := trace w @ [CachePut cacheKey]\<rparr>)))"

definition fetchPriceFromAlchemy ::
  "provider \<Rightarrow> string \<Rightarrow> Interval \<Rightarrow> Env \<Rightarrow> world \<Rightarrow> (error + AlchemyPriceData) \<times> world" where
  "fetchPriceFromAlchemy alchemy symb iv env w =
     (if ALCHEMY_API_KEY env = [] then (Inl ApiKeyNotConfigured, w)
      else (let w' = w\<lparr>trace := trace w @ [Fetch symb iv]\<rparr>
            in case alchemy symb iv of
                 NotOk \<Rightarrow> (Inl FetchFailed, w')
               | Json d \<Rightarrow>
                   if data d = [] then (Inl (NoPriceDataInRange symb), w') else (Inr d, w')))"

text \<open>
  The cache-or-fetch steps every route repeats for one symbol: read the cache, and on a
  miss fetch from the provider and write the result to the cache.
\<close>

definition loadPriceData ::
  "provider \<Rightarrow> Interval \<Rightarrow> Env \<Rightarrow> string \<Rightarrow> world \<Rightarrow> (error + AlchemyPriceData) \<times> world" where
  "loadPriceData alchemy iv env symb w =
     (case getCachedPrice symb iv env w of
        (Inl e, w1) \<Rightarrow> (Inl e, w1)
      | (Inr (Some priceData), w1) \<Rightarrow> (Inr priceData, w1)
      | (Inr None, w1) \<Rightarrow>
          (case fetchPriceFromAlchemy alchemy symb iv env w1 of
             (Inl e, w2) \<Rightarrow> (Inl e, w2)
           | (Inr priceData, w2) \<Rightarrow>
               (case setCachedPrice symb iv priceData env w2 of
                  (Inl e, w3) \<Rightarrow> (Inl e, w3)
                | (Inr u, w3) \<Rightarrow> (Inr priceData, w3))))"

text \<open>
  \<open>Promise.all\<close> over the symbols. Every load is started and leaves its effects; the
  result is the list of series, or the error of the first symbol in the list that failed.
  The loads are taken one after another in the order of the list.
\<close>

fun loadAll ::
  "provider \<Rightarrow> Interval \<Rightarrow> Env \<Rightarrow> string list \<Rightarrow> world
     \<Rightarrow> (error + AlchemyPriceData list) \<times> world" where
  "loadAll alchemy iv env [] w = (Inr [], w)"
| "loadAll alchemy iv env (symb # rest) w =
     (case loadPriceData alchemy iv env symb w of
        (r, w1) \<Rightarrow>
          (case loadAll alchemy iv env rest w1 of
             (rs, w2) \<Rightarrow>
               (case r of
                  Inl e \<Rightarrow> (Inl e, w2)
                | Inr d \<Rightarrow> (case rs of Inl e \<Rightarrow> (Inl e, w2) | Inr ds \<Rightarrow> (Inr (d # ds), w2)))))"

definition getWeightedPrices ::
  "provider \<Rightarrow> string list \<Rightarrow> jsnum list \<Rightarrow> Interval \<Rightarrow> Env \<Rightarrow> world
     \<Rightarrow> (error + point list) option \<times> world" where
  "getWeightedPrices alchemy symbolList ratioList iv env w =
     (case loadAll alchemy iv env symbolList w of
        (Inl e, w') \<Rightarrow> (Some (Inl e), w')
      | (Inr priceDataList, w') \<Rightarrow> (weightedData symbolList ratioList iv priceDataList, w'))"

section \<open>Routes\<close>

text \<open>
  A request's query parameters, each present or not. A response is its status and its
  body; the bodies' \<open>timestamp\<close> of the current time is left out. Numbers in a body are
  the values handed to \<open>JSON.stringify\<close>.
\<close>

record query =
  q_symbols :: "string option"
  q_ratios :: "string option"
  q_interval :: "string option"

record pnlResult =
  pnl :: jsnum
  firstValue :: jsnum
  lastValue :: jsnum
  firstTimestamp :: int
  lastTimestamp :: int

datatype body =
    Text string
  | PriceBody string Interval "point list"
  | AggregateBody "point list" Interval
  | PnlBody pnlResult
  | BatchBody "(string \<times> jsnum) list" int
  | ErrorBody error

record response =
  status :: nat
  body :: body

text \<open>\<open>s.split(',')\<close>: the pieces between the commas, at least one.\<close>

fun split :: "char \<Rightarrow> string \<Rightarrow> string list" where
  "split c [] = [[]]"
| "split c (x # xs) =
     (if x = c then [] # split c xs
      else (case split c xs of w # ws \<Rightarrow> (x # w) # ws | [] \<Rightarrow> [[x]]))"

text \<open>A parameter that is absent or the empty string is falsy.\<close>

fun truthy :: "string option \<Rightarrow> bool" where
  "truthy None = False"
| "truthy (Some s) = (s \<noteq> [])"

fun parseInterval :: "string \<Rightarrow> Interval option" where
  "parseInterval s =
     (if s = ''24h'' then Some I24h
      else if s = ''7d'' then Some I7d
      else if s = ''30d'' then Some I30d
      else None)"

definition isValidInterval :: "string \<Rightarrow> bool" where
  "isValidInterval s = (parseInterval s \<noteq> None)"

definition aggregate ::
  "provider \<Rightarrow> (string \<Rightarrow> jsnum) \<Rightarrow> query \<Rightarrow> Env \<Rightarrow> world \<Rightarrow> response option \<times> world" where
  "aggregate alchemy Number q env w =
     (if \<not> truthy (q_symbols q) \<or> \<not> truthy (q_ratios q)
      then (Some \<lparr>status = 400, body = Text ''Missing required parameters: symbols and ratios''\<rparr>, w)
      else
        (let symbolList = split CHR '','' (the (q_symbols q));
             ratioList = processRatios Number (split CHR '','' (the (q_ratios q)))
         in if length symbolList \<noteq> length ratioList
            then (Some \<lparr>status = 400, body = Text ''Number of symbols must match number of ratios''\<rparr>, w)
            else
              (let i = (if truthy (q_interval q) then the (q_interval q) else ''24h'')
               in case parseInterval i of
                    None \<Rightarrow>
                      (Some \<lparr>status = 400, body = Text ''Invalid interval. Allowed values: 24h, 7d, 30d''\<rparr>, w)
                  | Some iv \<Rightarrow>
                      (case getWeightedPrices alchemy symbolList ratioList iv env w of
                         (None, w') \<Rightarrow> (None, w')
                       | (Some (Inl e), w') \<Rightarrow> (Some \<lparr>status = 500, body = ErrorBody e\<rparr>, w')
                       | (Some (Inr weighted), w') \<Rightarrow>
                           (Some \<lparr>status = 200, body = AggregateBody weighted iv\<rparr>, w')))))"

text \<open>
  \<open>/aggregate/pnl\<close>. Reading \<open>weightedData[0].value\<close> of an empty result throws a
  \<open>TypeError\<close>, which the route catches like every other error.
\<close>

definition aggregatePnl ::
  "provider \<Rightarrow> (string \<Rightarrow> jsnum) \<Rightarrow> query \<Rightarrow> Env \<Rightarrow> world \<Rightarrow> response option \<times> world" where
  "aggregatePnl alchemy Number q env w =
     (if \<not> truthy (q_symbols q) \<or> \<not> truthy (q_ratios q)
      then (Some \<lparr>status = 400, body = Text ''Missing required parameters: symbols and ratios''\<rparr>, w)
      else
        (let symbolList = split CHR '','' (the (q_symbols q));
             ratioList = processRatios Number (split CHR '','' (the (q_ratios q)))
         in if length symbolList \<noteq> length ratioList
            then (Some \<lparr>status = 400, body = Text ''Number of symbols must match number of ratios''\<rparr>, w)
            else
              (case getWeightedPrices alchemy symbolList ratioList I30d env w of
                 (None, w') \<Rightarrow> (None, w')
               | (Some (Inl e), w') \<Rightarrow> (Some \<lparr>status = 500, body = ErrorBody e\<rparr>, w')
               | (Some (Inr []), w') \<Rightarrow> (Some \<lparr>status = 500, body = ErrorBody TypeError\<rparr>, w')
               | (Some (Inr (p # ps)), w') \<Rightarrow>
                   (let first = value (hd (p # ps));
                        final = value (last (p # ps));
                        change = jmul (jdiv (jsub final first) first) (Num 100)
                    in (Some \<lparr>status = 200,
                              body = PnlBody \<lparr>pnl = change, firstValue = first, lastValue = final,
                                       firstTimestamp = timestamp (hd (p # ps)),
                                       lastTimestamp = timestamp (last (p # ps))\<rparr>\<rparr>, w')))))"

text \<open>
  \<open>toLowerCase\<close> on the ASCII letters (symbols are tickers; other characters are left
  as they are).
\<close>

definition lowerChar :: "char \<Rightarrow> char" where
  "lowerChar c =
     (let n = (of_char c :: nat) in if 65 \<le> n \<and> n \<le> 90 then char_of (n + 32) else c)"

definition toLowerCase :: "string \<Rightarrow> string" where
  "toLowerCase s = map lowerChar s"

text \<open>
  The \<open>reduce\<close> that builds the \<open>values\<close> object of \<open>/batch\<close>: an object keeps its keys in
  the order they were first set, and setting a key again replaces its value.
\<close>

fun batchValues ::
  "string list \<Rightarrow> nat \<Rightarrow> (string \<times> jsnum) list \<Rightarrow> AlchemyPriceData list
     \<Rightarrow> error + (string \<times> jsnum) list" where
  "batchValues symbolList index acc [] = Inr acc"
| "batchValues symbolList index acc (priceData # rest) =
     (if data priceData = [] \<or> length symbolList \<le> index then Inl TypeError
      else (let latestPoint = last (data priceData)
            in batchValues symbolList (Suc index)
                 (AList.update (toLowerCase (symbolList ! index)) (value latestPoint) acc) rest))"

text \<open>
  The snapshot of \<open>/batch\<close> once the series are loaded. Reading the last point of an empty
  series throws a \<open>TypeError\<close>.
\<close>

definition batchSnapshot :: "string list \<Rightarrow> AlchemyPriceData list \<Rightarrow> error + body" where
  "batchSnapshot symbolList priceDataList =
     (if list_ex (\<lambda>d. data d = []) priceDataList then Inl TypeError
      else (let latestTimestamp =
                  Math_max (map (\<lambda>d. At (timestamp (last (data d)))) priceDataList)
            in case batchValues symbolList 0 [] priceDataList of
                 Inl e \<Rightarrow> Inl e
               | Inr vals \<Rightarrow>
                   (case latestTimestamp of
                      At ms \<Rightarrow> Inr (BatchBody vals ms)
                    | NegInfinity \<Rightarrow> Inl RangeError
                    | Infinity \<Rightarrow> Inl RangeError)))"

definition batch :: "provider \<Rightarrow> query \<Rightarrow> Env \<Rightarrow> world \<Rightarrow> response \<times> world" where
  "batch alchemy q env w =
     (if \<not> truthy (q_symbols q)
      then (\<lparr>status = 400, body = Text ''Missing required parameter: symbols''\<rparr>, w)
      else
        (let symbolList = split CHR '','' (the (q_symbols q));
             i = (if truthy (q_interval q) then the (q_interval q) else ''24h'')
         in case parseInterval i of
              None \<Rightarrow> (\<lparr>status = 400, body = Text ''Invalid interval. Allowed values: 24h, 7d, 30d''\<rparr>, w)
            | Some iv \<Rightarrow>
                (case loadAll alchemy iv env symbolList w of
                   (Inl e, w') \<Rightarrow> (\<lparr>status = 500, body = ErrorBody e\<rparr>, w')
                 | (Inr priceDataList, w') \<Rightarrow>
                     (case batchSnapshot symbolList priceDataList of
                        Inl e \<Rightarrow> (\<lparr>status = 500, body = ErrorBody e\<rparr>, w')
                      | Inr b \<Rightarrow> (\<lparr>status = 200, body = b\<rparr>, w')))))"

text \<open>\<open>/price/:symbol\<close>: the series of one symbol.\<close>

definition price :: "provider \<Rightarrow> string \<Rightarrow> query \<Rightarrow> Env \<Rightarrow> world \<Rightarrow> response \<times> world" where
  "price alchemy symb q env w =
     (let i = (if truthy (q_interval q) then the (q_interval q) else ''24h'')
      in case parseInterval i of
           None \<Rightarrow> (\<lparr>status = 400, body = Text ''Invalid interval''\<rparr>, w)
         | Some iv \<Rightarrow>
             (case loadPriceData alchemy iv env symb w of
                (Inl e, w') \<Rightarrow> (\<lparr>status = 500, body = ErrorBody e\<rparr>, w')
              | (Inr priceData, w') \<Rightarrow>
                  (\<lparr>status = 200, body = PriceBody symb iv (data priceData)\<rparr>, w')))"

text \<open>
  The scheduled task: fetch and cache each symbol of the fixed list over \<open>30d\<close>; a
  failure is logged and the task goes on.
\<close>

definition refresh :: "provider \<Rightarrow> Env \<Rightarrow> string \<Rightarrow> world \<Rightarrow> world" where
  "refresh alchemy env symb w =
     (case fetchPriceFromAlchemy alchemy symb I30d env w of
        (Inl e, w1) \<Rightarrow> w1
      | (Inr priceData, w1) \<Rightarrow> snd (setCachedPrice symb I30d priceData env w1))"

definition scheduled :: "provider \<Rightarrow> Env \<Rightarrow> world \<Rightarrow> world" where
  "scheduled alchemy env w = foldl (\<lambda>w' symb. refresh alchemy env symb w') w [''BTC'', ''ETH'', ''BNB'', ''SOL'']"

text \<open>
  The states the worker can reach from an empty cache: by a request to one of its routes,
  by the scheduled task, and by the expiry of a cache entry.
\<close>

inductive reachable :: "world \<Rightarrow> bool" where
  start: "reachable \<lparr>kv = Map.empty, trace = []\<rparr>"
| price: "reachable w \<Longrightarrow> reachable (snd (price alchemy symb q env w))"
| aggregate: "reachable w \<Longrightarrow> reachable (snd (aggregate alchemy Number q env w))"
| aggregatePnl: "reachable w \<Longrightarrow> reachable (snd (aggregatePnl alchemy Number q env w))"
| batch: "reachable w \<Longrightarrow> reachable (snd (batch alchemy q env w))"
| scheduled: "reachable w \<Longrightarrow> reachable (scheduled alchemy env w)"
| expiry: "reachable w \<Longrightarrow> reachable (w\<lparr>kv := (kv w)(k := None)\<rparr>)"

section \<open>Direct interpolation of a series\<close>

text \<open>
  The reference for the resampling of a single series, after the specification's words:
  for a timestamp \<open>t\<close> take the known points that bracket it, \<open>t_lo \<le> t \<le> t_hi\<close>, as
  close to \<open>t\<close> as the series has them, and interpolate linearly,
  \<open>v = v_lo + (v_hi - v_lo) * (t - t_lo) / (t_hi - t_lo)\<close>, the degenerate case
  \<open>t_hi = t_lo\<close> returning \<open>v_lo\<close>. The value of the series at a known time is that of its
  last point with that time (the lookup structure from timestamp to value).
\<close>

definition knownValue :: "(int \<times> real) list \<Rightarrow> int \<Rightarrow> real" where
  "knownValue ps s = snd (last (filter (\<lambda>p. fst p = s) ps))"

definition directInterpolation :: "(int \<times> real) list \<Rightarrow> int \<Rightarrow> real" where
  "directInterpolation ps t =
     (let t_lo = Max (set (filter (\<lambda>s. s \<le> t) (map fst ps)));
          t_hi = Min (set (filter (\<lambda>s. t \<le> s) (map fst ps)));
          v_lo = knownValue ps t_lo;
          v_hi = knownValue ps t_hi
      in if t_hi = t_lo then v_lo
         else v_lo + (v_hi - v_lo) * real_of_int (t - t_lo) / real_of_int (t_hi - t_lo))"

section \<open>The entries of a snapshot\<close>


section \<open>The regular timeline\<close>

text \<open>The timestamps from \<open>a\<close> up to \<open>b\<close> in steps of \<open>step\<close>, as a list.\<close>

definition regularTimeline :: "int \<Rightarrow> int \<Rightarrow> int \<Rightarrow> int list" where
  "regularTimeline a b step =
     map (\<lambda>k. a + int k * step) [0..<(if a \<le> b then nat ((b - a) div step) + 1 else 0)]"

section \<open>Example data\<close>

definition series :: "string \<Rightarrow> (int \<times> real) list \<Rightarrow> AlchemyPriceData" where
  "series symb ps =
     \<lparr>symbol = symb, currency = ''usd'',
      data = map (\<lambda>p. \<lparr>value = Num (snd p), timestamp = fst p\<rparr>) ps\<rparr>"

definition configured :: Env where
  "configured = \<lparr>PRICE_CACHE = True, ALCHEMY_API_KEY = ''key''\<rparr>"

text \<open>A provider that is down, for the examples that read from the cache only.\<close>

definition down :: provider where
  "down symb iv = NotOk"

text \<open>Series A spans the times 0 to 10, series B the times 20 to 30.\<close>

definition disjointCache :: world where
  "disjointCache =
     \<lparr>kv = [''price:A:24h'' \<mapsto> series ''A'' [(0, 1), (10, 2)],
             ''price:B:24h'' \<mapsto> series ''B'' [(20, 5), (30, 6)]],
      trace = []\<rparr>"

text \<open>
  An instance of the parameter \<open>Number\<close> for the examples: it agrees with the language on
  the strings it reads, the unsigned decimal literals (\<open>60\<close>, \<open>0.5\<close>) and the empty string.
\<close>

definition digitValue :: "char \<Rightarrow> nat option" where
  "digitValue c =
     (let n = (of_char c :: nat) in if 48 \<le> n \<and> n \<le> 57 then Some (n - 48) else None)"

fun digitsValue :: "nat \<Rightarrow> string \<Rightarrow> nat option" where
  "digitsValue acc [] = Some acc"
| "digitsValue acc (c # cs) =
     (case digitValue c of None \<Rightarrow> None | Some d \<Rightarrow> digitsValue (10 * acc + d) cs)"

definition decimalNumber :: "string \<Rightarrow> jsnum" where
  "decimalNumber s =
     (let whole = takeWhile (\<lambda>c. c \<noteq> CHR ''.'') s;
          fraction = drop 1 (dropWhile (\<lambda>c. c \<noteq> CHR ''.'') s)
      in case (digitsValue 0 whole, digitsValue 0 fraction) of
           (Some i, Some f) \<Rightarrow>
             if whole = [] \<and> fraction = [] \<and> s \<noteq> [] then NaN
             else Num (real i + real f / 10 ^ length fraction)
         | _ \<Rightarrow> NaN)"

definition emptyCache :: world where
  "emptyCache = \<lparr>kv = Map.empty, trace = []\<rparr>"


text \<open>A series over one day that rises from 100 to 110.\<close>

definition risingCache :: world where
  "risingCache =
     \<lparr>kv = [''price:R:30d'' \<mapsto> series ''R'' [(0, 100), (86400000, 110)]], trace = []\<rparr>"

text \<open>
  Series A has points at the times 300000 and 900000, which bound the common range.
  Series B has points before, inside (at 400000 and 500000) and after that range.
\<close>

definition edgeA :: AlchemyPriceData where
  "edgeA = series ''A'' [(300000, 10), (900000, 10)]"

definition edgeB :: AlchemyPriceData where
  "edgeB = series ''B'' [(0, 7), (400000, 1), (500000, 3), (1000000, 9)]"

text \<open>A provider that answers every request with a series of one point.\<close>

definition onePoint :: provider where
  "onePoint symb iv = Json (series symb [(0, 100)])"

section \<open>The cache invariant\<close>

text \<open>Every series in the cache has at least one point.\<close>

definition cacheNonEmpty :: "world \<Rightarrow> bool" where
  "cacheNonEmpty w = (\<forall>k d. kv w k = Some d \<longrightarrow> data d \<noteq> [])"

section \<open>Properties of the timeline\<close>

lemma regularTimeline_empty: "b < a \<Longrightarrow> regularTimeline a b step = []"
  by (simp add: regularTimeline_def)

lemma regularTimeline_step:
  assumes "0 < step" "a \<le> b"
  shows "regularTimeline a b step = a # regularTimeline (a + step) b step"
proof (cases "a + step \<le> b")
  case True
  have d: "(b - a) div step = (b - (a + step)) div step + 1"
  proof -
    have "b - a = (b - (a + step)) + 1 * step" by simp
    then show ?thesis using assms(1)
      by (metis div_mult_self1 less_irrefl add.commute)
  qed
  have nn: "0 \<le> (b - (a + step)) div step"
    using True assms(1) by (simp add: pos_imp_zdiv_nonneg_iff)
  have n: "nat ((b - a) div step) = Suc (nat ((b - (a + step)) div step))"
    using d nn by simp
  have "regularTimeline a b step =
          map (\<lambda>k. a + int k * step) [0..<Suc (Suc (nat ((b - (a + step)) div step)))]"
    using assms(2) by (simp add: regularTimeline_def n del: upt_Suc)
  also have "\<dots> = (a + int 0 * step) #
          map (\<lambda>k. a + int (Suc k) * step) [0..<Suc (nat ((b - (a + step)) div step))]"
    by (rule map_upt_Suc)
  also have "\<dots> = a # map (\<lambda>k. (a + step) + int k * step) [0..<Suc (nat ((b - (a + step)) div step))]"
    by (simp add: algebra_simps del: upt_Suc)
  also have "\<dots> = a # regularTimeline (a + step) b step"
    using True by (simp add: regularTimeline_def del: upt_Suc)
  finally show ?thesis .
next
  case False
  then have "(b - a) div step = 0" using assms by simp
  then show ?thesis using False assms(2) by (simp add: regularTimeline_def)
qed

text \<open>With finite bounds the loop returns, and generates the regular timeline.\<close>

lemma timestampsFrom_finite:
  assumes "0 < step"
  shows "timestampsFrom (At a) (At b) step acc = Some (acc @ map At (regularTimeline a b step))"
proof (induction "nat (b - a + 1)" arbitrary: a acc rule: less_induct)
  case less
  show ?case
  proof (cases "a \<le> b")
    case True
    have "nat (b - (a + step) + 1) < nat (b - a + 1)" using True assms by simp
    from less[OF this] True show ?thesis
      by (subst timestampsFrom.simps) (simp add: regularTimeline_step[OF assms True])
  next
    case False
    then show ?thesis
      by (subst timestampsFrom.simps) (simp add: regularTimeline_empty)
  qed
qed

lemma timestampsFrom_out_of_order: "\<not> ele lo hi \<Longrightarrow> timestampsFrom lo hi step acc = Some acc"
  by (subst timestampsFrom.simps) simp

lemma getTimeStep_pos: "0 < getTimeStep iv"
  by (cases iv) simp_all

section \<open>Maximum and minimum of timestamps\<close>

lemma emax_At: "emax (At a) (At x) = At (max a x)"
  by (simp add: emax_def max_def)

lemma emin_At: "emin (At a) (At x) = At (min a x)"
  by (simp add: emin_def min_def)

lemma foldl_emax_At: "foldl emax (At a) (map At xs) = At (Max (insert a (set xs)))"
proof (induction xs arbitrary: a)
  case Nil
  show ?case by simp
next
  case (Cons x xs)
  have "Max (insert (max a x) (set xs)) = Max (insert a (insert x (set xs)))"
    by (cases "set xs = {}") (simp_all add: max.assoc)
  then show ?case
    by (simp only: list.map foldl_Cons emax_At Cons.IH list.set)
qed

lemma Math_max_At: "xs \<noteq> [] \<Longrightarrow> Math_max (map At xs) = At (Max (set xs))"
proof (cases xs)
  case Nil
  then show "xs \<noteq> [] \<Longrightarrow> ?thesis" by simp
next
  case (Cons x ys)
  have "emax NegInfinity (At x) = At x" by (simp add: emax_def)
  then show ?thesis
    by (simp only: Cons Math_max_def list.map foldl_Cons foldl_emax_At list.set)
qed

lemma foldl_emin_At: "foldl emin (At a) (map At xs) = At (Min (insert a (set xs)))"
proof (induction xs arbitrary: a)
  case Nil
  show ?case by simp
next
  case (Cons x xs)
  have "Min (insert (min a x) (set xs)) = Min (insert a (insert x (set xs)))"
    by (cases "set xs = {}") (simp_all add: min.assoc)
  then show ?case
    by (simp only: list.map foldl_Cons emin_At Cons.IH list.set)
qed

lemma Math_min_At: "xs \<noteq> [] \<Longrightarrow> Math_min (map At xs) = At (Min (set xs))"
proof (cases xs)
  case Nil
  then show "xs \<noteq> [] \<Longrightarrow> ?thesis" by simp
next
  case (Cons x ys)
  have "emin Infinity (At x) = At x" by (simp add: emin_def)
  then show ?thesis
    by (simp only: Cons Math_min_def list.map foldl_Cons foldl_emin_At list.set)
qed

section \<open>Properties of the snapshot\<close>


lemma map_of_foldl_update:
  "map_of (foldl (\<lambda>m e. AList.update (fst e) (snd e) m) acc es) = map_of acc ++ map_of (rev es)"
proof (induction es arbitrary: acc)
  case Nil
  show ?case by simp
next
  case (Cons e es)
  have "(map_of acc)(fst e \<mapsto> snd e) ++ map_of (rev es) =
          map_of acc ++ ([fst e \<mapsto> snd e] ++ map_of (rev es))"
    by (rule ext) (simp add: map_add_def split: option.splits)
  moreover have "map_of (rev (e # es)) = [fst e \<mapsto> snd e] ++ map_of (rev es)"
    by (simp add: map_of_append)
  moreover have "map_of (AList.update (fst e) (snd e) acc) = (map_of acc)(fst e \<mapsto> snd e)"
    by (rule update_conv')
  ultimately show ?case
    by (simp only: foldl_Cons Cons.IH)
qed




section \<open>Properties of the interpolation\<close>

text \<open>The search loop finds a pair whenever the timestamp lies between the first and the last entry.\<close>

lemma bracket_complete:
  "2 \<le> length xs \<Longrightarrow> fst (hd xs) \<le> t \<Longrightarrow> t \<le> fst (last xs) \<Longrightarrow> bracket xs (At t) \<noteq> None"
proof (induction xs "At t" rule: bracket.induct)
  case (1 a b rest)
  show ?case
  proof (cases "fst a \<le> t \<and> t \<le> fst b")
    case True
    then show ?thesis by simp
  next
    case False
    then have b: "fst b < t" using "1.prems"(2) by simp
    then have "rest \<noteq> []" using "1.prems"(3) by auto
    then have "bracket (b # rest) (At t) \<noteq> None"
      using "1.hyps" False b "1.prems"(3) by (cases rest) auto
    then show ?thesis using False by simp
  qed
qed simp_all

text \<open>In a list sorted strictly by time, the pair found is a pair of neighbours around the timestamp.\<close>

lemma bracket_neighbours:
  assumes "sorted_wrt (\<lambda>a b. fst a < fst b) xs" "bracket xs (At t) = Some (a, b)"
  shows "a \<in> set xs \<and> b \<in> set xs \<and> fst a \<le> t \<and> t \<le> fst b \<and> fst a < fst b
       \<and> (\<forall>c \<in> set xs. fst c \<le> t \<longrightarrow> fst c \<le> fst a \<or> fst c = fst b)
       \<and> (\<forall>c \<in> set xs. t \<le> fst c \<longrightarrow> fst b \<le> fst c \<or> fst c = fst a)"
  using assms
proof (induction xs "At t" rule: bracket.induct)
  case (1 x y rest)
  show ?case
  proof (cases "fst x \<le> t \<and> t \<le> fst y")
    case True
    then have ab: "a = x" "b = y" using "1.prems"(2) by simp_all
    show ?thesis using True "1.prems"(1) unfolding ab by fastforce
  next
    case False
    then have r: "bracket (y # rest) (At t) = Some (a, b)" using "1.prems"(2) by auto
    have s: "sorted_wrt (\<lambda>a b. fst a < fst b) (y # rest)" using "1.prems"(1) by simp
    have ih: "a \<in> set (y # rest) \<and> b \<in> set (y # rest) \<and> fst a \<le> t \<and> t \<le> fst b \<and> fst a < fst b
       \<and> (\<forall>c \<in> set (y # rest). fst c \<le> t \<longrightarrow> fst c \<le> fst a \<or> fst c = fst b)
       \<and> (\<forall>c \<in> set (y # rest). t \<le> fst c \<longrightarrow> fst b \<le> fst c \<or> fst c = fst a)"
      using "1.hyps" False s r by simp
    have xa: "fst x < fst a" using ih "1.prems"(1) by auto
    then have "fst x \<le> fst a \<and> \<not> t \<le> fst x" using ih by auto
    then show ?thesis using ih by auto
  qed
qed simp_all

text \<open>Direct interpolation between two neighbouring known times.\<close>

lemma directInterpolation_neighbours:
  assumes "lo \<in> fst ` set ps" "hi \<in> fst ` set ps" "lo \<le> t" "t \<le> hi" "lo < hi"
      and below: "\<forall>s \<in> fst ` set ps. s \<le> t \<longrightarrow> s \<le> lo \<or> s = hi"
      and above: "\<forall>s \<in> fst ` set ps. t \<le> s \<longrightarrow> hi \<le> s \<or> s = lo"
  shows "directInterpolation ps t =
           (if t = hi then knownValue ps hi
            else if t = lo then knownValue ps lo
            else knownValue ps lo
                 + (knownValue ps hi - knownValue ps lo) * real_of_int (t - lo) / real_of_int (hi - lo))"
proof -
  have mx: "Max (set (filter (\<lambda>s. s \<le> t) (map fst ps))) = (if t = hi then hi else lo)"
  proof (rule Max_eqI)
    show "finite (set (filter (\<lambda>s. s \<le> t) (map fst ps)))" by simp
    show "y \<le> (if t = hi then hi else lo)" if "y \<in> set (filter (\<lambda>s. s \<le> t) (map fst ps))" for y
      using that below assms(3-5) by fastforce
    show "(if t = hi then hi else lo) \<in> set (filter (\<lambda>s. s \<le> t) (map fst ps))"
      using assms(1-4) by auto
  qed
  have mn: "Min (set (filter (\<lambda>s. t \<le> s) (map fst ps))) = (if t = lo then lo else hi)"
  proof (rule Min_eqI)
    show "finite (set (filter (\<lambda>s. t \<le> s) (map fst ps)))" by simp
    show "(if t = lo then lo else hi) \<le> y" if "y \<in> set (filter (\<lambda>s. t \<le> s) (map fst ps))" for y
      using that above assms(3-5) by fastforce
    show "(if t = lo then lo else hi) \<in> set (filter (\<lambda>s. t \<le> s) (map fst ps))"
      using assms(1-4) by auto
  qed
  show ?thesis
    unfolding directInterpolation_def Let_def mx mn using assms(5) by auto
qed

lemma directInterpolation_single:
  assumes "fst ` set ps = {k}"
  shows "directInterpolation ps k = knownValue ps k"
proof -
  have "set (filter (\<lambda>s. s \<le> k) (map fst ps)) = {k}" "set (filter (\<lambda>s. k \<le> s) (map fst ps)) = {k}"
    using assms by auto
  then show ?thesis unfolding directInterpolation_def Let_def by simp
qed

text \<open>
  On entries sorted strictly by time that hold the series' known values, the code's
  interpolation is the direct interpolation, for a timestamp between the first and the
  last entry.
\<close>

lemma interpolate_direct:
  assumes sorted: "sorted_wrt (\<lambda>a b. fst a < fst b) xs" and "xs \<noteq> []"
      and keys: "fst ` set xs = fst ` set ps"
      and vals: "\<forall>e \<in> set xs. snd e = Num (knownValue ps (fst e))"
      and range: "fst (hd xs) \<le> t" "t \<le> fst (last xs)"
  shows "interpolate xs (At t) = Num (directInterpolation ps t)"
proof (cases "length xs = 1")
  case True
  then obtain e where e: "xs = [e]" by (cases xs) auto
  then have t: "t = fst e" using range by simp
  have "fst ` set ps = {fst e}" using keys e by simp
  then have "directInterpolation ps t = knownValue ps (fst e)"
    unfolding t by (rule directInterpolation_single)
  moreover have "interpolate xs (At t) = Num (knownValue ps (fst e))"
    using vals e by (simp add: interpolate_def jsub_def)
  ultimately show ?thesis by simp
next
  case False
  moreover have "length xs \<noteq> 0" using assms(2) by simp
  ultimately have "2 \<le> length xs" by linarith
  from bracket_complete[OF this range] obtain a b where ab: "bracket xs (At t) = Some (a, b)"
    by auto
  from bracket_neighbours[OF sorted ab]
  have n: "a \<in> set xs" "b \<in> set xs" "fst a \<le> t" "t \<le> fst b" "fst a < fst b"
       "\<forall>c \<in> set xs. fst c \<le> t \<longrightarrow> fst c \<le> fst a \<or> fst c = fst b"
       "\<forall>c \<in> set xs. t \<le> fst c \<longrightarrow> fst b \<le> fst c \<or> fst c = fst a"
    by simp_all
  have va: "snd a = Num (knownValue ps (fst a))" and vb: "snd b = Num (knownValue ps (fst b))"
    using vals n(1,2) by simp_all
  have code: "interpolate xs (At t) =
      Num (knownValue ps (fst a) + (knownValue ps (fst b) - knownValue ps (fst a))
             * (real_of_int (t - fst a) / real_of_int (fst b - fst a)))"
    using n(5) by (simp add: interpolate_def ab va vb jsub_def)
  have below: "\<forall>s \<in> fst ` set ps. s \<le> t \<longrightarrow> s \<le> fst a \<or> s = fst b"
    using n(6) keys by (metis (no_types, lifting) imageE image_eqI)
  have above: "\<forall>s \<in> fst ` set ps. t \<le> s \<longrightarrow> fst b \<le> s \<or> s = fst a"
    using n(7) keys by (metis (no_types, lifting) imageE image_eqI)
  have ka: "fst a \<in> fst ` set ps" and kb: "fst b \<in> fst ` set ps"
    using n(1,2) keys by auto
  have spec: "directInterpolation ps t =
           (if t = fst b then knownValue ps (fst b)
            else if t = fst a then knownValue ps (fst a)
            else knownValue ps (fst a)
                 + (knownValue ps (fst b) - knownValue ps (fst a)) * real_of_int (t - fst a)
                   / real_of_int (fst b - fst a))"
    by (rule directInterpolation_neighbours[OF ka kb n(3) n(4) n(5) below above])
  show ?thesis
    unfolding code spec using n(5) by (simp add: field_simps)
qed

lemma priceMap_entries:
  "priceMap d = foldl (\<lambda>m e. AList.update (fst e) (snd e) m) []
                  (map (\<lambda>p. (timestamp p, value p)) (data d))"
  by (simp add: priceMap_def foldl_map)

lemma distinct_foldl_update:
  "distinct (map fst acc) \<Longrightarrow>
   distinct (map fst (foldl (\<lambda>m e. AList.update (fst e) (snd e) m) acc es))"
  by (induction es arbitrary: acc) (simp_all add: distinct_update)

lemma keys_foldl_update:
  "fst ` set (foldl (\<lambda>m e. AList.update (fst e) (snd e) m) acc es) = fst ` set acc \<union> fst ` set es"
  by (induction es arbitrary: acc) (auto simp: dom_update)

lemma map_of_rev_last:
  "k \<in> fst ` set es \<Longrightarrow> map_of (rev es) k = Some (snd (last (filter (\<lambda>e. fst e = k) es)))"
proof (induction es rule: rev_induct)
  case Nil
  then show ?case by simp
next
  case (snoc e es)
  then show ?case by (cases "fst e = k") auto
qed

text \<open>The map of a series of finite values: one entry for each time, holding the known value.\<close>

lemma priceMap_known:
  assumes "data d = map (\<lambda>p. \<lparr>value = Num (snd p), timestamp = fst p\<rparr>) ps"
  shows "distinct (map fst (priceMap d))"
    and "fst ` set (priceMap d) = fst ` set ps"
    and "\<forall>e \<in> set (priceMap d). snd e = Num (knownValue ps (fst e))"
proof -
  let ?es = "map (\<lambda>p. (fst p, Num (snd p))) ps"
  have m: "priceMap d = foldl (\<lambda>m e. AList.update (fst e) (snd e) m) [] ?es"
    by (simp add: priceMap_entries assms comp_def)
  show d: "distinct (map fst (priceMap d))"
    unfolding m by (rule distinct_foldl_update) simp
  show k: "fst ` set (priceMap d) = fst ` set ps"
    unfolding m keys_foldl_update by (simp add: image_image)
  show "\<forall>e \<in> set (priceMap d). snd e = Num (knownValue ps (fst e))"
  proof
    fix e assume e: "e \<in> set (priceMap d)"
    then have "map_of (priceMap d) (fst e) = Some (snd e)"
      using d by simp
    then have 1: "map_of (rev ?es) (fst e) = Some (snd e)"
      unfolding m by (simp add: map_of_foldl_update)
    have "fst e \<in> fst ` set ps" using e k by auto
    then have in_es: "fst e \<in> fst ` set ?es" by (simp add: image_image)
    have ne: "filter (\<lambda>p. fst p = fst e) ps \<noteq> []"
      using \<open>fst e \<in> fst ` set ps\<close> by (fastforce simp: filter_empty_conv)
    have "filter (\<lambda>x. fst x = fst e) ?es = map (\<lambda>p. (fst p, Num (snd p))) (filter (\<lambda>p. fst p = fst e) ps)"
      by (simp add: filter_map comp_def)
    then have "snd (last (filter (\<lambda>x. fst x = fst e) ?es)) = Num (knownValue ps (fst e))"
      using ne by (simp add: last_map knownValue_def)
    then show "snd e = Num (knownValue ps (fst e))"
      using 1 map_of_rev_last[OF in_es] by simp
  qed
qed

lemma availablePrices_sorted:
  assumes "distinct (map fst m)"
  shows "sorted_wrt (\<lambda>a b. fst a < fst b) (availablePrices m lo hi)"
proof -
  let ?f = "filter (\<lambda>e. ele lo (At (fst e)) \<and> ele (At (fst e)) hi) m"
  have "distinct (map fst ?f)" using assms by (simp add: distinct_map_filter)
  then have "distinct ?f" "inj_on fst (set ?f)" by (simp_all add: distinct_map)
  then have "distinct (map fst (sort_key fst ?f))" by (simp add: distinct_map)
  moreover have "sorted (map fst (sort_key fst ?f))" by (rule sorted_sort_key)
  ultimately have "sorted_wrt (<) (map fst (sort_key fst ?f))" by (simp add: strict_sorted_iff)
  then show ?thesis by (simp add: availablePrices_def sorted_wrt_map)
qed

lemma availablePrices_set:
  "set (availablePrices m lo hi) = {e \<in> set m. ele lo (At (fst e)) \<and> ele (At (fst e)) hi}"
  by (auto simp: availablePrices_def)

lemma sorted_hd_last:
  assumes "sorted_wrt (\<lambda>a b. fst a < fst b) xs" "xs \<noteq> []"
  shows "fst (hd xs) = Min (fst ` set xs)" "fst (last xs) = Max (fst ` set xs)"
proof -
  obtain x rest where x: "xs = x # rest" using assms(2) by (cases xs) auto
  have "Min (fst ` set xs) = fst x"
    by (rule Min_eqI) (use assms(1) x in \<open>auto simp: less_imp_le\<close>)
  then show "fst (hd xs) = Min (fst ` set xs)" using x by simp
  obtain y front where y: "xs = front @ [y]" using assms(2) by (cases xs rule: rev_cases) auto
  have "Max (fst ` set xs) = fst y"
    by (rule Max_eqI) (use assms(1) y in \<open>auto simp: sorted_wrt_append less_imp_le\<close>)
  then show "fst (last xs) = Max (fst ` set xs)" using y by simp
qed

lemma weightedPoints_map:
  assumes "\<forall>t \<in> set ts. weightedValue symbolList ratioList lo hi (foldl jadd (Num 0) ratioList)
                           (At t) 0 (Num 0) priceMaps = Inr (f t)"
  shows "weightedPoints symbolList ratioList lo hi priceMaps (map At ts) =
           Inr (map (\<lambda>t. \<lparr>value = f t, timestamp = t\<rparr>) ts)"
  using assms by (induction ts) (simp_all add: Let_def)

lemma regularTimeline_bounds:
  assumes "0 < step" "t \<in> set (regularTimeline a b step)"
  shows "a \<le> t \<and> t \<le> b"
proof -
  have ab: "a \<le> b"
    using assms(2) by (auto simp: regularTimeline_def split: if_splits)
  have "t \<in> (\<lambda>k. a + int k * step) ` {0..<nat ((b - a) div step) + 1}"
    using assms(2) ab by (simp add: regularTimeline_def del: upt_Suc)
  then have "\<exists>k. t = a + int k * step \<and> k < nat ((b - a) div step) + 1"
    by auto
  then obtain k where k: "t = a + int k * step" "k < nat ((b - a) div step) + 1"
    by blast
  have "0 \<le> (b - a) div step"
    using ab assms(1) by (simp add: pos_imp_zdiv_nonneg_iff)
  then have "int k \<le> (b - a) div step" using k(2) by linarith
  then have "int k * step \<le> ((b - a) div step) * step"
    using assms(1) by (simp add: mult_right_mono)
  also have "\<dots> \<le> b - a"
    using assms(1) by (metis mult.commute pos_mod_sign add.commute add_le_cancel_left
        le_add_same_cancel2 mult_div_mod_eq)
  finally show ?thesis using k(1) assms(1) by (simp add: mult_nonneg_nonneg)
qed

lemma single_window:
  assumes "data d \<noteq> []"
  shows "minTimestamp [d] = At (Min (timestamp ` set (data d)))"
    and "maxTimestamp [d] = At (Max (timestamp ` set (data d)))"
  using assms Math_min_At[of "map timestamp (data d)"] Math_max_At[of "map timestamp (data d)"]
  by (simp_all add: minTimestamp_def maxTimestamp_def allTimestamps_def Math_max_def Math_min_def
      emax_def emin_def)


section \<open>Properties of the weights\<close>



lemma length_processRatios: "length (processRatios Number ratios) = length ratios"
  by (simp add: processRatios_def Let_def)



section \<open>Evaluating the examples\<close>

lemma decimal_examples:
  "decimalNumber ''60'' = Num 60" "decimalNumber ''40'' = Num 40"
  "decimalNumber ''0.5'' = Num (1/2)" "decimalNumber ''0'' = Num 0" "decimalNumber ''1'' = Num 1"
  by (simp_all add: decimalNumber_def digitValue_def)

lemma split_examples:
  "split CHR '','' ''A,B'' = [''A'', ''B'']" "split CHR '','' ''0.5'' = [''0.5'']"
  "split CHR '','' ''Z'' = [''Z'']" "split CHR '','' ''1'' = [''1'']"
  "split CHR '','' ''R'' = [''R'']"
  by simp_all


lemma decimal_one: "decimalNumber ''1.0'' = Num 1"
  by (simp add: decimalNumber_def digitValue_def)

lemma unit_weight: "processRatios decimalNumber [''1''] = [Num 1]"
  by (simp add: processRatios_def decimal_examples)

lemma day_timeline: "regularTimeline 0 86400000 86400000 = [0, 86400000]"
  by (simp add: regularTimeline_def upt_conv_Cons)

lemmas weighting_defs =
  priceMap_def availablePrices_def interpolate_def ratioAt_def symbolAt_def jsub_def signedInf_def

lemmas window_defs =
  minTimestamp_def maxTimestamp_def allTimestamps_def Math_max_def Math_min_def emin_def emax_def

lemmas load_defs =
  loadPriceData_def getCachedPrice_def setCachedPrice_def fetchPriceFromAlchemy_def
  generateCacheKey_def

lemma edge_window: "minTimestamp [edgeA, edgeB] = At 300000" "maxTimestamp [edgeA, edgeB] = At 900000"
  by (simp_all add: window_defs edgeA_def edgeB_def series_def)

lemma edge_timeline: "regularTimeline 300000 900000 300000 = [300000, 600000, 900000]"
  by (simp add: regularTimeline_def upt_conv_Cons)

text \<open>A cache hit returns the cached series and only records the read.\<close>

lemma loadPriceData_hit:
  "PRICE_CACHE env \<Longrightarrow> kv w (generateCacheKey symb iv) = Some d \<Longrightarrow>
   loadPriceData alchemy iv env symb w =
     (Inr d, w\<lparr>trace := trace w @ [CacheGet (generateCacheKey symb iv)]\<rparr>)"
  by (simp add: loadPriceData_def getCachedPrice_def)

lemma disjointCache_load:
  "loadAll down I24h configured [''A'', ''B''] disjointCache =
     (Inr [series ''A'' [(0, 1), (10, 2)], series ''B'' [(20, 5), (30, 6)]],
      disjointCache\<lparr>trace := [CacheGet ''price:A:24h'', CacheGet ''price:B:24h'']\<rparr>)"
  by (simp add: loadPriceData_hit [where d = "series ''A'' [(0, 1), (10, 2)]"]
      loadPriceData_hit [where d = "series ''B'' [(20, 5), (30, 6)]"]
      disjointCache_def configured_def generateCacheKey_def)


lemma risingCache_weighted:
  "getWeightedPrices down [''R''] [Num 1] I30d configured risingCache =
     (Some (Inr [\<lparr>value = Num 100, timestamp = 0\<rparr>, \<lparr>value = Num 110, timestamp = 86400000\<rparr>]),
      risingCache\<lparr>trace := [CacheGet ''price:R:30d'']\<rparr>)"
proof -
  have "loadAll down I30d configured [''R''] risingCache =
          (Inr [series ''R'' [(0, 100), (86400000, 110)]],
           risingCache\<lparr>trace := [CacheGet ''price:R:30d'']\<rparr>)"
    by (simp add: loadPriceData_hit [where d = "series ''R'' [(0, 100), (86400000, 110)]"]
        risingCache_def configured_def generateCacheKey_def)
  moreover have "weightedData [''R''] [Num 1] I30d [series ''R'' [(0, 100), (86400000, 110)]] =
      Some (Inr [\<lparr>value = Num 100, timestamp = 0\<rparr>, \<lparr>value = Num 110, timestamp = 86400000\<rparr>])"
    by (simp add: weightedData_def window_defs series_def timestampsFrom_finite day_timeline
        weighting_defs)
  ultimately show ?thesis
    by (simp add: getWeightedPrices_def del: loadAll.simps)
qed

text \<open>The percent-change route on a request whose parameters are present and match.\<close>

lemma aggregatePnl_ok:
  assumes "truthy (q_symbols q)" "truthy (q_ratios q)"
      and "length (split CHR '','' (the (q_symbols q))) = length (split CHR '','' (the (q_ratios q)))"
      and "getWeightedPrices alchemy (split CHR '','' (the (q_symbols q)))
             (processRatios Number (split CHR '','' (the (q_ratios q)))) I30d env w
           = (Some (Inr (p # ps)), w')"
  shows "aggregatePnl alchemy Number q env w =
           (Some \<lparr>status = 200,
                  body = PnlBody \<lparr>pnl = jmul (jdiv (jsub (value (last (p # ps))) (value p)) (value p)) (Num 100),
                           firstValue = value p, lastValue = value (last (p # ps)),
                           firstTimestamp = timestamp p,
                           lastTimestamp = timestamp (last (p # ps))\<rparr>\<rparr>, w')"
  using assms by (simp add: aggregatePnl_def Let_def length_processRatios)

lemma disjointCache_window:
  "minTimestamp [series ''A'' [(0, 1), (10, 2)], series ''B'' [(20, 5), (30, 6)]] = At 20"
  "maxTimestamp [series ''A'' [(0, 1), (10, 2)], series ''B'' [(20, 5), (30, 6)]] = At 10"
  by (simp_all add: window_defs series_def)

section \<open>Properties of the cache\<close>

lemma getCachedPrice_kv: "kv (snd (getCachedPrice symb iv env w)) = kv w"
  by (simp add: getCachedPrice_def Let_def)

lemma fetchPriceFromAlchemy_kv: "kv (snd (fetchPriceFromAlchemy alchemy symb iv env w)) = kv w"
  by (simp add: fetchPriceFromAlchemy_def Let_def split: reply.splits)

lemma fetchPriceFromAlchemy_nonempty:
  "fst (fetchPriceFromAlchemy alchemy symb iv env w) = Inr d \<Longrightarrow> data d \<noteq> []"
  by (auto simp: fetchPriceFromAlchemy_def Let_def split: reply.splits if_splits)

lemma setCachedPrice_cacheNonEmpty:
  "cacheNonEmpty w \<Longrightarrow> data d \<noteq> [] \<Longrightarrow> cacheNonEmpty (snd (setCachedPrice symb iv d env w))"
  by (simp add: setCachedPrice_def cacheNonEmpty_def Let_def)

lemma cacheNonEmpty_kv: "kv w' = kv w \<Longrightarrow> cacheNonEmpty w \<Longrightarrow> cacheNonEmpty w'"
  by (simp add: cacheNonEmpty_def)

lemma loadPriceData_cacheNonEmpty:
  assumes "cacheNonEmpty w"
  shows "cacheNonEmpty (snd (loadPriceData alchemy iv env symb w))"
proof -
  obtain r1 w1 where g: "getCachedPrice symb iv env w = (r1, w1)" by (cases "getCachedPrice symb iv env w")
  have c1: "cacheNonEmpty w1"
    using getCachedPrice_kv[of symb iv env w] g assms by (auto intro: cacheNonEmpty_kv)
  obtain r2 w2 where f: "fetchPriceFromAlchemy alchemy symb iv env w1 = (r2, w2)"
    by (cases "fetchPriceFromAlchemy alchemy symb iv env w1")
  have c2: "cacheNonEmpty w2"
    using fetchPriceFromAlchemy_kv[of alchemy symb iv env w1] f c1 by (auto intro: cacheNonEmpty_kv)
  have n: "data d \<noteq> []" if "r2 = Inr d" for d
    using fetchPriceFromAlchemy_nonempty[of alchemy symb iv env w1 d] f that by simp
  define r3 where "r3 d = fst (setCachedPrice symb iv d env w2)" for d
  define w3 where "w3 d = snd (setCachedPrice symb iv d env w2)" for d
  have p: "setCachedPrice symb iv d env w2 = (r3 d, w3 d)" for d
    by (simp add: r3_def w3_def)
  have c3: "cacheNonEmpty (w3 d)" if "data d \<noteq> []" for d
    using setCachedPrice_cacheNonEmpty[OF c2 that, of symb iv env] p by simp
  show ?thesis
    using g f p c1 c2 n c3
    by (auto simp: loadPriceData_def split: sum.splits option.splits)
qed

lemma loadAll_cacheNonEmpty:
  "cacheNonEmpty w \<Longrightarrow> cacheNonEmpty (snd (loadAll alchemy iv env symbolList w))"
proof (induction symbolList arbitrary: w)
  case Nil
  then show ?case by simp
next
  case (Cons symb rest)
  have "cacheNonEmpty (snd (loadPriceData alchemy iv env symb w))"
    using Cons.prems by (rule loadPriceData_cacheNonEmpty)
  from Cons.IH[OF this] show ?case
    by (auto split: prod.splits sum.splits)
qed

lemma getWeightedPrices_world:
  "snd (getWeightedPrices alchemy symbolList ratioList iv env w) = snd (loadAll alchemy iv env symbolList w)"
  by (auto simp: getWeightedPrices_def split: prod.splits sum.splits)

lemma aggregate_world:
  "snd (aggregate alchemy Number q env w) = w
   \<or> (\<exists>iv symbolList. snd (aggregate alchemy Number q env w) = snd (loadAll alchemy iv env symbolList w))"
proof -
  have c: "snd (case x of (None, w') \<Rightarrow> (None, w')
                 | (Some (Inl e), w') \<Rightarrow> (Some (A e), w')
                 | (Some (Inr ps), w') \<Rightarrow> (Some (B ps), w')) = snd x"
    for x :: "(error + point list) option \<times> world" and A B
    by (cases x) (simp split: option.splits sum.splits)
  show ?thesis
  proof (cases "\<not> truthy (q_symbols q) \<or> \<not> truthy (q_ratios q)")
    case True
    then show ?thesis by (simp add: aggregate_def)
  next
    case present: False
    show ?thesis
    proof (cases "length (split CHR '','' (the (q_symbols q)))
                    \<noteq> length (processRatios Number (split CHR '','' (the (q_ratios q))))")
      case True
      then show ?thesis using present by (simp add: aggregate_def Let_def)
    next
      case matching: False
      show ?thesis
      proof (cases "parseInterval (if truthy (q_interval q) then the (q_interval q) else ''24h'')")
        case None
        then show ?thesis using present matching by (simp add: aggregate_def Let_def del: parseInterval.simps)
      next
        case (Some iv)
        then have "snd (aggregate alchemy Number q env w) =
            snd (getWeightedPrices alchemy (split CHR '','' (the (q_symbols q)))
                  (processRatios Number (split CHR '','' (the (q_ratios q)))) iv env w)"
          using present matching by (simp add: aggregate_def Let_def c del: parseInterval.simps)
        then show ?thesis by (auto simp: getWeightedPrices_world)
      qed
    qed
  qed
qed

lemma aggregatePnl_world:
  "snd (aggregatePnl alchemy Number q env w) = w
   \<or> (\<exists>iv symbolList. snd (aggregatePnl alchemy Number q env w) = snd (loadAll alchemy iv env symbolList w))"
proof -
  show ?thesis
  proof (cases "\<not> truthy (q_symbols q) \<or> \<not> truthy (q_ratios q)")
    case True
    then show ?thesis by (simp add: aggregatePnl_def)
  next
    case present: False
    show ?thesis
    proof (cases "length (split CHR '','' (the (q_symbols q)))
                    \<noteq> length (processRatios Number (split CHR '','' (the (q_ratios q))))")
      case True
      then show ?thesis using present by (simp add: aggregatePnl_def Let_def)
    next
      case matching: False
      obtain r w' where g: "getWeightedPrices alchemy (split CHR '','' (the (q_symbols q)))
                  (processRatios Number (split CHR '','' (the (q_ratios q)))) I30d env w = (r, w')"
        by (metis surj_pair)
      have "snd (aggregatePnl alchemy Number q env w) =
            snd (getWeightedPrices alchemy (split CHR '','' (the (q_symbols q)))
                  (processRatios Number (split CHR '','' (the (q_ratios q)))) I30d env w)"
        using present matching g
        by (simp add: aggregatePnl_def Let_def split: option.splits sum.splits list.splits)
      then show ?thesis by (auto simp: getWeightedPrices_world)
    qed
  qed
qed

lemma batch_world:
  "snd (batch alchemy q env w) = w
   \<or> (\<exists>iv symbolList. snd (batch alchemy q env w) = snd (loadAll alchemy iv env symbolList w))"
proof -
  have c: "snd (case x of (Inl e, w') \<Rightarrow> (A e, w')
                 | (Inr ds, w') \<Rightarrow> (case B ds of Inl e \<Rightarrow> (C e, w') | Inr b \<Rightarrow> (D b, w'))) = snd x"
    for x :: "(error + AlchemyPriceData list) \<times> world" and A and B :: "_ \<Rightarrow> error + body" and C D
    by (cases x) (simp split: sum.splits)
  show ?thesis
  proof (cases "\<not> truthy (q_symbols q)")
    case True
    then show ?thesis by (simp add: batch_def)
  next
    case present: False
    show ?thesis
    proof (cases "parseInterval (if truthy (q_interval q) then the (q_interval q) else ''24h'')")
      case None
      then show ?thesis using present by (simp add: batch_def Let_def del: parseInterval.simps)
    next
      case (Some iv)
      then have "snd (batch alchemy q env w) =
          snd (loadAll alchemy iv env (split CHR '','' (the (q_symbols q))) w)"
        using present by (simp add: batch_def Let_def c del: parseInterval.simps)
      then show ?thesis by auto
    qed
  qed
qed

lemma price_world:
  "snd (price alchemy symb q env w) = w
   \<or> (\<exists>iv. snd (price alchemy symb q env w) = snd (loadPriceData alchemy iv env symb w))"
proof (cases "parseInterval (if truthy (q_interval q) then the (q_interval q) else ''24h'')")
  case None
  then show ?thesis by (simp add: price_def Let_def del: parseInterval.simps)
next
  case (Some iv)
  have c: "snd (case x of (Inl e, w') \<Rightarrow> (A e, w') | (Inr d, w') \<Rightarrow> (B d, w')) = snd x"
    for x :: "(error + AlchemyPriceData) \<times> world" and A B
    by (cases x) (simp split: sum.splits)
  from Some have "snd (price alchemy symb q env w) = snd (loadPriceData alchemy iv env symb w)"
    by (simp add: price_def Let_def c del: parseInterval.simps)
  then show ?thesis by auto
qed

lemma aggregate_cacheNonEmpty:
  "cacheNonEmpty w \<Longrightarrow> cacheNonEmpty (snd (aggregate alchemy Number q env w))"
  using aggregate_world[of alchemy Number q env w] by (auto simp: loadAll_cacheNonEmpty)

lemma aggregatePnl_cacheNonEmpty:
  "cacheNonEmpty w \<Longrightarrow> cacheNonEmpty (snd (aggregatePnl alchemy Number q env w))"
  using aggregatePnl_world[of alchemy Number q env w] by (auto simp: loadAll_cacheNonEmpty)

lemma batch_cacheNonEmpty:
  "cacheNonEmpty w \<Longrightarrow> cacheNonEmpty (snd (batch alchemy q env w))"
  using batch_world[of alchemy q env w] by (auto simp: loadAll_cacheNonEmpty)

lemma price_cacheNonEmpty:
  "cacheNonEmpty w \<Longrightarrow> cacheNonEmpty (snd (price alchemy symb q env w))"
  using price_world[of alchemy symb q env w] by (auto simp: loadPriceData_cacheNonEmpty)

lemma refresh_cacheNonEmpty:
  assumes "cacheNonEmpty w"
  shows "cacheNonEmpty (refresh alchemy env symb w)"
proof -
  obtain r1 w1 where f: "fetchPriceFromAlchemy alchemy symb I30d env w = (r1, w1)"
    by (cases "fetchPriceFromAlchemy alchemy symb I30d env w")
  have c1: "cacheNonEmpty w1"
    using fetchPriceFromAlchemy_kv[of alchemy symb I30d env w] f assms by (auto intro: cacheNonEmpty_kv)
  have n: "data d \<noteq> []" if "r1 = Inr d" for d
    using fetchPriceFromAlchemy_nonempty[of alchemy symb I30d env w d] f that by simp
  show ?thesis
    using f c1 n setCachedPrice_cacheNonEmpty[OF c1]
    by (auto simp: refresh_def split: sum.splits)
qed

lemma scheduled_cacheNonEmpty:
  "cacheNonEmpty w \<Longrightarrow> cacheNonEmpty (scheduled alchemy env w)"
  by (simp add: scheduled_def refresh_cacheNonEmpty)

lemma reachable_cacheNonEmpty: "reachable w \<Longrightarrow> cacheNonEmpty w"
proof (induction rule: reachable.induct)
  case start
  show ?case by (simp add: cacheNonEmpty_def)
next
  case (expiry w k)
  then show ?case by (simp add: cacheNonEmpty_def)
qed (simp_all add: price_cacheNonEmpty aggregate_cacheNonEmpty aggregatePnl_cacheNonEmpty
       batch_cacheNonEmpty scheduled_cacheNonEmpty)

lemma onePoint_price:
  "snd (price onePoint ''ETH'' \<lparr>q_symbols = None, q_ratios = None, q_interval = None\<rparr> configured emptyCache)
     = \<lparr>kv = [''price:ETH:24h'' \<mapsto> series ''ETH'' [(0, 100)]],
        trace = [CacheGet ''price:ETH:24h'', Fetch ''ETH'' I24h, CachePut ''price:ETH:24h'']\<rparr>"
  by (simp add: price_def loadPriceData_def getCachedPrice_def fetchPriceFromAlchemy_def
      setCachedPrice_def generateCacheKey_def configured_def emptyCache_def onePoint_def series_def
      Let_def)

section \<open>Series without a common time range\<close>

text \<open>
  When the start of the common range exceeds its end, the timeline loop generates no
  timestamp and the result is the empty list of points.
\<close>

lemma getWeightedPrices_empty_range:
  assumes "loadAll alchemy iv env symbolList w = (Inr priceDataList, w')"
      and "\<not> ele (minTimestamp priceDataList) (maxTimestamp priceDataList)"
    shows "getWeightedPrices alchemy symbolList ratioList iv env w = (Some (Inr []), w')"
  using assms by (simp add: getWeightedPrices_def weightedData_def timestampsFrom_out_of_order)

text \<open>
  C1 does not hold of the code. Series A spans the times 0 to 10 and series B the times
  20 to 30, so the start of the common range (20) exceeds its end (10): no timestamp is
  generated, the check for a series without a point in the common range, which sits in
  the computation of a timestamp's value, is never reached, and \<open>getWeightedPrices\<close>
  returns the empty list of points. The check does throw when the common range is not
  empty and a series has no point in it: series C has points at 0 and 1200000 only, series
  D at 300000 and 600000.
\<close>

theorem getWeightedPrices_disjoint_returns_empty:
  "\<not> ele (minTimestamp [series ''A'' [(0, 1), (10, 2)], series ''B'' [(20, 5), (30, 6)]])
         (maxTimestamp [series ''A'' [(0, 1), (10, 2)], series ''B'' [(20, 5), (30, 6)]])
   \<and> getWeightedPrices down [''A'', ''B''] [Num (1/2), Num (1/2)] I24h configured disjointCache =
       (Some (Inr []), disjointCache\<lparr>trace := [CacheGet ''price:A:24h'', CacheGet ''price:B:24h'']\<rparr>)
   \<and> weightedData [''C'', ''D''] [Num (1/2), Num (1/2)] I24h
         [series ''C'' [(0, 1), (1200000, 2)], series ''D'' [(300000, 5), (600000, 6)]] =
       Some (Inl (NoPriceData ''C''))"
proof -
  have "weightedData [''C'', ''D''] [Num (1/2), Num (1/2)] I24h
         [series ''C'' [(0, 1), (1200000, 2)], series ''D'' [(300000, 5), (600000, 6)]] =
       Some (Inl (NoPriceData ''C''))"
    by (simp add: weightedData_def window_defs series_def timestampsFrom.simps
        availablePrices_def priceMap_def symbolAt_def)
  then show ?thesis
    by (simp add: disjointCache_window getWeightedPrices_empty_range [OF disjointCache_load])
qed

section \<open>Weights sum to one\<close>




section \<open>Requests whose counts do not match\<close>

text \<open>
  C9: a request whose number of symbols differs from its number of weights (a missing or
  empty parameter included) is answered by \<open>/aggregate\<close> and by \<open>/aggregate/pnl\<close> with
  status 400, and the state is left as it was: no cache read, no provider request and no
  cache write has been made.
\<close>

theorem count_mismatch_rejected:
  assumes "\<not> truthy (q_symbols q) \<or> \<not> truthy (q_ratios q)
           \<or> length (split CHR '','' (the (q_symbols q))) \<noteq> length (split CHR '','' (the (q_ratios q)))"
  shows "\<exists>msg. aggregate alchemy Number q env w = (Some \<lparr>status = 400, body = Text msg\<rparr>, w)
             \<and> aggregatePnl alchemy Number q env w = (Some \<lparr>status = 400, body = Text msg\<rparr>, w)"
  using assms by (auto simp: aggregate_def aggregatePnl_def Let_def length_processRatios)

theorem count_mismatch_rejected_witness:
  "aggregate down decimalNumber \<lparr>q_symbols = Some ''A,B'', q_ratios = Some ''0.5'', q_interval = None\<rparr>
     configured emptyCache =
     (Some \<lparr>status = 400, body = Text ''Number of symbols must match number of ratios''\<rparr>, emptyCache)
   \<and> aggregatePnl down decimalNumber \<lparr>q_symbols = Some ''A,B'', q_ratios = Some ''0.5'', q_interval = None\<rparr>
     configured emptyCache =
     (Some \<lparr>status = 400, body = Text ''Number of symbols must match number of ratios''\<rparr>, emptyCache)"
proof -
  obtain msg where
    m: "aggregate down decimalNumber \<lparr>q_symbols = Some ''A,B'', q_ratios = Some ''0.5'', q_interval = None\<rparr>
          configured emptyCache = (Some \<lparr>status = 400, body = Text msg\<rparr>, emptyCache)
        \<and> aggregatePnl down decimalNumber \<lparr>q_symbols = Some ''A,B'', q_ratios = Some ''0.5'', q_interval = None\<rparr>
          configured emptyCache = (Some \<lparr>status = 400, body = Text msg\<rparr>, emptyCache)"
    using count_mismatch_rejected
      [of "\<lparr>q_symbols = Some ''A,B'', q_ratios = Some ''0.5'', q_interval = None\<rparr>"
          down decimalNumber configured emptyCache]
    by (auto simp: split_examples)
  moreover have "msg = ''Number of symbols must match number of ratios''"
    using m by (simp add: aggregate_def Let_def length_processRatios split_examples)
  ultimately show ?thesis by simp
qed

section \<open>Percent change\<close>

text \<open>
  C6: \<open>/aggregate/pnl\<close> computes over the \<open>30d\<close> interval whatever interval the request
  carries, and for a weighted series of at least one point whose first value is not zero
  it returns \<open>pnl = (last - first) / first * 100\<close>, with the first and the last point of the
  series as they stand.
\<close>

theorem aggregatePnl_formula:
  assumes "truthy (q_symbols q)" "truthy (q_ratios q)"
      and "length (split CHR '','' (the (q_symbols q))) = length (split CHR '','' (the (q_ratios q)))"
      and "getWeightedPrices alchemy (split CHR '','' (the (q_symbols q)))
             (processRatios Number (split CHR '','' (the (q_ratios q)))) I30d env w
           = (Some (Inr (p # ps)), w')"
      and "value p = Num f" "value (last (p # ps)) = Num l" "f \<noteq> 0"
  shows "aggregatePnl alchemy Number (q\<lparr>q_interval := i\<rparr>) env w =
           (Some \<lparr>status = 200,
                  body = PnlBody \<lparr>pnl = Num ((l - f) / f * 100),
                           firstValue = Num f, lastValue = Num l,
                           firstTimestamp = timestamp p,
                           lastTimestamp = timestamp (last (p # ps))\<rparr>\<rparr>, w')"
proof -
  have "aggregatePnl alchemy Number (q\<lparr>q_interval := i\<rparr>) env w =
           (Some \<lparr>status = 200,
                  body = PnlBody \<lparr>pnl = jmul (jdiv (jsub (value (last (p # ps))) (value p)) (value p)) (Num 100),
                           firstValue = value p, lastValue = value (last (p # ps)),
                           firstTimestamp = timestamp p,
                           lastTimestamp = timestamp (last (p # ps))\<rparr>\<rparr>, w')"
    by (rule aggregatePnl_ok) (use assms in simp_all)
  then show ?thesis
    using assms(5-7) by (simp add: jsub_def)
qed

theorem aggregatePnl_formula_witness:
  "aggregatePnl down decimalNumber \<lparr>q_symbols = Some ''R'', q_ratios = Some ''1'', q_interval = Some ''24h''\<rparr>
     configured risingCache =
     (Some \<lparr>status = 200,
            body = PnlBody \<lparr>pnl = Num 10, firstValue = Num 100, lastValue = Num 110,
                     firstTimestamp = 0, lastTimestamp = 86400000\<rparr>\<rparr>,
      risingCache\<lparr>trace := [CacheGet ''price:R:30d'']\<rparr>)"
  using aggregatePnl_formula
    [of "\<lparr>q_symbols = Some ''R'', q_ratios = Some ''1'', q_interval = None\<rparr>"
        down decimalNumber configured risingCache
        "\<lparr>value = Num 100, timestamp = 0\<rparr>" "[\<lparr>value = Num 110, timestamp = 86400000\<rparr>]"
        "risingCache\<lparr>trace := [CacheGet ''price:R:30d'']\<rparr>" 100 110 "Some ''24h''"]
  by (simp add: split_examples unit_weight risingCache_weighted)




section \<open>Cached series are not empty\<close>

text \<open>
  C10: in every state the worker reaches from an empty cache (by requests to its routes,
  runs of the scheduled task and expiry of entries), every cached series has at least one
  point, so a cache hit returns a series with at least one point; and the failure for a
  series without points arises only after a cache miss, from the provider's answer.
\<close>

theorem cached_series_nonempty:
  assumes "reachable w"
  shows "(kv w k = Some d \<longrightarrow> data d \<noteq> [])
       \<and> (fst (getCachedPrice symb iv env w) = Inr (Some d) \<longrightarrow> data d \<noteq> [])
       \<and> (fst (loadPriceData alchemy iv env symb w) = Inl (NoPriceDataInRange s) \<longrightarrow>
            kv w (generateCacheKey symb iv) = None)"
proof -
  have c: "cacheNonEmpty w" using assms by (rule reachable_cacheNonEmpty)
  have 1: "kv w k = Some d \<longrightarrow> data d \<noteq> []" for k
    using c by (simp add: cacheNonEmpty_def)
  have 2: "fst (getCachedPrice symb iv env w) = Inr (Some d) \<longrightarrow> data d \<noteq> []"
    using 1 by (auto simp: getCachedPrice_def Let_def split: if_splits)
  have 3: "fst (loadPriceData alchemy iv env symb w) = Inl (NoPriceDataInRange s) \<longrightarrow>
            kv w (generateCacheKey symb iv) = None"
    by (auto simp: loadPriceData_def getCachedPrice_def setCachedPrice_def Let_def
        split: if_splits option.splits prod.splits sum.splits)
  show ?thesis using 1 2 3 by blast
qed

theorem cached_series_nonempty_witness:
  "reachable \<lparr>kv = [''price:ETH:24h'' \<mapsto> series ''ETH'' [(0, 100)]],
       trace = [CacheGet ''price:ETH:24h'', Fetch ''ETH'' I24h, CachePut ''price:ETH:24h'']\<rparr>
   \<and> fst (getCachedPrice ''ETH'' I24h configured
        \<lparr>kv = [''price:ETH:24h'' \<mapsto> series ''ETH'' [(0, 100)]],
         trace = [CacheGet ''price:ETH:24h'', Fetch ''ETH'' I24h, CachePut ''price:ETH:24h'']\<rparr>)
       = Inr (Some (series ''ETH'' [(0, 100)]))
   \<and> data (series ''ETH'' [(0, 100)]) \<noteq> []"
proof -
  have r: "reachable \<lparr>kv = [''price:ETH:24h'' \<mapsto> series ''ETH'' [(0, 100)]],
       trace = [CacheGet ''price:ETH:24h'', Fetch ''ETH'' I24h, CachePut ''price:ETH:24h'']\<rparr>"
    using reachable.price[OF reachable.start, of onePoint "''ETH''"
        "\<lparr>q_symbols = None, q_ratios = None, q_interval = None\<rparr>" configured]
    by (simp add: onePoint_price[unfolded emptyCache_def])
  have g: "fst (getCachedPrice ''ETH'' I24h configured
        \<lparr>kv = [''price:ETH:24h'' \<mapsto> series ''ETH'' [(0, 100)]],
         trace = [CacheGet ''price:ETH:24h'', Fetch ''ETH'' I24h, CachePut ''price:ETH:24h'']\<rparr>)
       = Inr (Some (series ''ETH'' [(0, 100)]))"
    by (simp add: getCachedPrice_def generateCacheKey_def configured_def Let_def)
  from cached_series_nonempty[OF r, of "''price:ETH:24h''" "series ''ETH'' [(0, 100)]" "''ETH''" I24h configured]
  have "data (series ''ETH'' [(0, 100)]) \<noteq> []" using g by simp
  with r g show ?thesis by simp
qed

section \<open>Batch snapshot\<close>




section \<open>Timestamps outside a series' points\<close>

text \<open>
  C2 does not hold of the code. Series B has two points inside the common range, at the
  times 400000 and 500000 with the values 1 and 3. At the generated timestamps 300000
  (before both) and 600000 (after both) the search loop finds no enclosing pair, the first
  and the last point stay selected, and the value is extrapolated along the line through
  them: -1 and 5, where the nearest points hold 1 and 3.
\<close>

theorem interpolate_outside_points_extrapolates:
  "availablePrices (priceMap edgeB) (minTimestamp [edgeA, edgeB]) (maxTimestamp [edgeA, edgeB]) =
     [(400000, Num 1), (500000, Num 3)]
   \<and> interpolate [(400000, Num 1), (500000, Num 3)] (At 300000) = Num (- 1)
   \<and> interpolate [(400000, Num 1), (500000, Num 3)] (At 600000) = Num 5
   \<and> weightedData [''A'', ''B''] [Num 0, Num 1] I24h [edgeA, edgeB] =
       Some (Inr [\<lparr>value = Num (- 1), timestamp = 300000\<rparr>,
                  \<lparr>value = Num 5, timestamp = 600000\<rparr>,
                  \<lparr>value = Num 11, timestamp = 900000\<rparr>])"
proof -
  have a: "availablePrices (priceMap edgeB) (At 300000) (At 900000) = [(400000, Num 1), (500000, Num 3)]"
    by (simp add: availablePrices_def priceMap_def edgeB_def series_def)
  have b: "availablePrices (priceMap edgeA) (At 300000) (At 900000) = [(300000, Num 10), (900000, Num 10)]"
    by (simp add: availablePrices_def priceMap_def edgeA_def series_def)
  have i: "interpolate [(400000, Num 1), (500000, Num 3)] (At 300000) = Num (- 1)"
          "interpolate [(400000, Num 1), (500000, Num 3)] (At 600000) = Num 5"
          "interpolate [(400000, Num 1), (500000, Num 3)] (At 900000) = Num 11"
    by (simp_all add: interpolate_def jsub_def)
  have j: "interpolate [(300000, Num 10), (900000, Num 10)] (At t) = Num 10" for t
    by (simp add: interpolate_def jsub_def)
  have "weightedData [''A'', ''B''] [Num 0, Num 1] I24h [edgeA, edgeB] =
       Some (Inr [\<lparr>value = Num (- 1), timestamp = 300000\<rparr>,
                  \<lparr>value = Num 5, timestamp = 600000\<rparr>,
                  \<lparr>value = Num 11, timestamp = 900000\<rparr>])"
    by (simp add: weightedData_def edge_window timestampsFrom_finite edge_timeline a b i j ratioAt_def)
  then show ?thesis
    by (simp add: edge_window a i)
qed

section \<open>A single series with unit weight\<close>

text \<open>
  C8: for a single series that is not empty (its values finite) and the weight vector
  \<open>[1.0]\<close>, the weighted points are the points of the regular timeline from the first
  to the last time of the series, each with the value of the direct linear interpolation
  of the series at its timestamp: the weighted combination with one unit weight leaves
  the interpolated value as it is.
\<close>

theorem single_series_resampled:
  assumes "ps \<noteq> []"
      and "data d = map (\<lambda>p. \<lparr>value = Num (snd p), timestamp = fst p\<rparr>) ps"
      and "Number w = Num 1"
  shows "weightedData [symb] (processRatios Number [w]) iv [d] =
           Some (Inr (map (\<lambda>t. \<lparr>value = Num (directInterpolation ps t), timestamp = t\<rparr>)
                      (regularTimeline (Min (fst ` set ps)) (Max (fst ` set ps)) (getTimeStep iv))))"
proof -
  let ?mn = "Min (fst ` set ps)" and ?mx = "Max (fst ` set ps)"
  let ?xs = "availablePrices (priceMap d) (At ?mn) (At ?mx)"
  have ratios: "processRatios Number [w] = [Num 1]"
    using assms(3) by (simp add: processRatios_def)
  have ts: "timestamp ` set (data d) = fst ` set ps"
    using assms(2) by (simp add: image_image)
  have window: "minTimestamp [d] = At ?mn" "maxTimestamp [d] = At ?mx"
    using single_window[of d] assms(1,2) ts by simp_all
  note pm = priceMap_known[OF assms(2)]
  have inside: "?mn \<le> fst e \<and> fst e \<le> ?mx" if "e \<in> set (priceMap d)" for e
  proof -
    have "fst e \<in> fst ` set ps" using that pm(2) by auto
    then show ?thesis by simp
  qed
  have set_xs: "set ?xs = set (priceMap d)"
    using inside by (auto simp: availablePrices_set)
  have sorted: "sorted_wrt (\<lambda>a b. fst a < fst b) ?xs"
    using pm(1) by (rule availablePrices_sorted)
  have keys: "fst ` set ?xs = fst ` set ps"
    using set_xs pm(2) by simp
  have ne: "?xs \<noteq> []"
    using keys assms(1) by auto
  have vals: "\<forall>e \<in> set ?xs. snd e = Num (knownValue ps (fst e))"
    using set_xs pm(3) by simp
  have ends: "fst (hd ?xs) = ?mn" "fst (last ?xs) = ?mx"
    using sorted_hd_last[OF sorted ne] keys by simp_all
  have point: "weightedValue [symb] [Num 1] (At ?mn) (At ?mx) (foldl jadd (Num 0) [Num 1])
                 (At t) 0 (Num 0) [priceMap d] = Inr (Num (directInterpolation ps t))"
    if "t \<in> set (regularTimeline ?mn ?mx (getTimeStep iv))" for t
  proof -
    have "?mn \<le> t \<and> t \<le> ?mx"
      using regularTimeline_bounds[OF getTimeStep_pos that] .
    then have "interpolate ?xs (At t) = Num (directInterpolation ps t)"
      using interpolate_direct[OF sorted ne keys vals] ends by simp
    then show ?thesis
      using ne by (simp add: Let_def ratioAt_def)
  qed
  have "weightedPoints [symb] [Num 1] (At ?mn) (At ?mx) [priceMap d]
          (map At (regularTimeline ?mn ?mx (getTimeStep iv))) =
        Inr (map (\<lambda>t. \<lparr>value = Num (directInterpolation ps t), timestamp = t\<rparr>)
               (regularTimeline ?mn ?mx (getTimeStep iv)))"
    by (rule weightedPoints_map) (use point in blast)
  then show ?thesis
    unfolding weightedData_def Let_def window ratios
    by (simp add: timestampsFrom_finite[OF getTimeStep_pos])
qed

theorem single_series_resampled_witness:
  "weightedData [''E''] (processRatios decimalNumber [''1.0'']) I24h [series ''E'' [(0, 1), (600000, 3)]] =
     Some (Inr [\<lparr>value = Num 1, timestamp = 0\<rparr>, \<lparr>value = Num 2, timestamp = 300000\<rparr>,
                \<lparr>value = Num 3, timestamp = 600000\<rparr>])"
proof -
  have t: "regularTimeline 0 600000 300000 = [0, 300000, 600000]"
    by (simp add: regularTimeline_def upt_conv_Cons)
  have v: "directInterpolation [(0, 1), (600000, 3)] 0 = 1"
          "directInterpolation [(0, 1), (600000, 3)] 300000 = 2"
          "directInterpolation [(0, 1), (600000, 3)] 600000 = 3"
    by (simp_all add: directInterpolation_def knownValue_def Let_def)
  show ?thesis
    using single_series_resampled
      [of "[(0, 1), (600000, 3)]" "series ''E'' [(0, 1), (600000, 3)]" decimalNumber "''1.0''" "''E''" I24h]
    by (simp add: series_def decimal_one t v)
qed

section \<open>Interpolation at a known point\<close>




end
